theory Spec2Isabelle
  imports Complex_Main "HOL-Library.Product_Lexorder"
begin

section \<open>Python strings\<close>

text \<open>
  A Python \<open>str\<close> is a sequence of Unicode code points and \<open>len\<close> counts code points,
  so a string is a list of code points. ASCII literals are written \<open>ustr ''abc''\<close>.
\<close>

type_synonym pystr = "nat list"

definition ustr :: "string \<Rightarrow> pystr" where
  "ustr s = map of_char s"

text \<open>
  The characters \<open>str.split()\<close> and \<open>str.strip()\<close> treat as whitespace (those for which
  \<open>str.isspace\<close> holds): U+0009..U+000D, U+001C..U+0020, U+0085, U+00A0, U+1680,
  U+2000..U+200A, U+2028, U+2029, U+202F, U+205F and U+3000.
\<close>

definition isspace :: "nat \<Rightarrow> bool" where
  "isspace c =
     ((9 \<le> c \<and> c \<le> 13) \<or> (28 \<le> c \<and> c \<le> 32) \<or> c = 133 \<or> c = 160 \<or> c = 5760 \<or>
      (8192 \<le> c \<and> c \<le> 8202) \<or> c = 8232 \<or> c = 8233 \<or> c = 8239 \<or> c = 8287 \<or> c = 12288)"

text \<open>
  \<open>text.split()\<close> without arguments: runs of whitespace separate the words, and leading
  and trailing whitespace gives no empty word. The first argument is the word read so far.
\<close>

fun split_acc :: "pystr \<Rightarrow> pystr \<Rightarrow> pystr list" where
  "split_acc w [] = (if w = [] then [] else [w])"
| "split_acc w (c # cs) =
     (if isspace c then (if w = [] then split_acc [] cs else w # split_acc [] cs)
      else split_acc (w @ [c]) cs)"

definition split_ws :: "pystr \<Rightarrow> pystr list" where
  "split_ws s = split_acc [] s"

text \<open>\<open>sep.join(xs)\<close>.\<close>

fun join :: "pystr \<Rightarrow> pystr list \<Rightarrow> pystr" where
  "join sep [] = []"
| "join sep [x] = x"
| "join sep (x # y # ys) = x @ sep @ join sep (y # ys)"

text \<open>\<open>" ".join(xs)\<close>: the separator is the one-character string U+0020.\<close>

abbreviation join_sp :: "pystr list \<Rightarrow> pystr" where
  "join_sp xs \<equiv> join [32] xs"

section \<open>utils.py\<close>

text \<open>\<open>clean_text(text)\<close>: \<open>" ".join(text.split())\<close>.\<close>

definition clean_text :: "pystr \<Rightarrow> pystr" where
  "clean_text t = join_sp (split_ws t)"

text \<open>
  The loop of \<open>split_text\<close> over \<open>words\<close>, with the two lists it mutates, \<open>chunks\<close> and
  \<open>current_chunk\<close>, passed as state. \<open>current_chunk.pop()\<close> removes the last element.
\<close>

fun split_loop :: "int \<Rightarrow> pystr list \<Rightarrow> pystr list \<Rightarrow> pystr list \<Rightarrow> pystr list \<times> pystr list" where
  "split_loop max_length chunks current_chunk [] = (chunks, current_chunk)"
| "split_loop max_length chunks current_chunk (word # words) =
     (let appended = current_chunk @ [word] in
      if int (length (join_sp appended)) > max_length then
        (let popped = (if length appended > 1 then butlast appended else appended)
         in split_loop max_length (chunks @ [join_sp popped]) [word] words)
      else split_loop max_length chunks appended words)"

text \<open>\<open>split_text(text, max_length)\<close>: the loop, then the last chunk if it is not empty.\<close>

definition split_text :: "pystr \<Rightarrow> int \<Rightarrow> pystr list" where
  "split_text t max_length =
     (case split_loop max_length [] [] (split_ws t) of
        (chunks, current_chunk) \<Rightarrow>
          if current_chunk \<noteq> [] then chunks @ [join_sp current_chunk] else chunks)"

text \<open>\<open>text.strip()\<close>: whitespace removed at both ends.\<close>

definition strip :: "pystr \<Rightarrow> pystr" where
  "strip s = rev (dropWhile isspace (rev (dropWhile isspace s)))"

text \<open>\<open>sub in s\<close> for strings, by way of \<open>s.startswith(sub)\<close> at each position.\<close>

fun startswith :: "pystr \<Rightarrow> pystr \<Rightarrow> bool" where
  "startswith s [] = True"
| "startswith [] (c # sub) = False"
| "startswith (d # s) (c # sub) = (d = c \<and> startswith s sub)"

fun contains :: "pystr \<Rightarrow> pystr \<Rightarrow> bool" where
  "contains sub [] = (sub = [])"
| "contains sub (c # s) = (startswith (c # s) sub \<or> contains sub s)"

text \<open>\<open>str(n)\<close> for a non-negative integer: its decimal digits.\<close>

fun str_nat :: "nat \<Rightarrow> pystr" where
  "str_nat n = (if n < 10 then [48 + n] else str_nat (n div 10) @ [48 + n mod 10])"

declare str_nat.simps [simp del]

text \<open>\<open>os.path.basename\<close> and \<open>os.path.join\<close> of two components, on POSIX paths.\<close>

definition basename :: "pystr \<Rightarrow> pystr" where
  "basename p = rev (takeWhile (\<lambda>c. c \<noteq> 47) (rev p))"

definition path_join :: "pystr \<Rightarrow> pystr \<Rightarrow> pystr" where
  "path_join a b =
     (if startswith b [47] then b
      else if a = [] \<or> last a = 47 then a @ b
      else a @ [47] @ b)"

section \<open>pdf\_handler.py: extraction\<close>

text \<open>
  The dictionary built for one text run, and the dictionary built for one page. The keys
  \<open>text\<close>, \<open>x\<close>, \<open>y\<close>, \<open>fontSize\<close>, \<open>font\<close>, \<open>rotation\<close>, \<open>width\<close>, \<open>height\<close> of a run and
  \<open>width\<close>, \<open>height\<close>, \<open>rotation\<close>, \<open>content\<close>, \<open>page_number\<close> of a page are always
  present, so both are records. Coordinates and sizes are Python floats, modelled as
  real numbers: rounding is not part of the model.
\<close>

record text_item =
  run_text :: pystr
  run_x :: real
  run_y :: real
  run_fontSize :: real
  run_font :: pystr
  run_rotation :: int
  run_width :: real
  run_height :: real

record page =
  page_width :: real
  page_height :: real
  page_rotation :: int
  content :: "text_item list"
  page_number :: nat

text \<open>
  What PyPDF2 hands to the extractor. A \<open>text_op\<close> is one call that \<open>page.extract_text\<close>
  makes to the visitor: the text, \<open>tm[4]\<close>, \<open>tm[5]\<close>, the font dictionary (\<open>None\<close> or a
  dictionary) and the font size (\<open>None\<close> or a number). A \<open>pdf_page\<close> has its media box, its
  \<open>/Rotate\<close> entry when there is one, the visitor calls its text extraction makes, and
  whether that extraction raises. \<open>Unparsable\<close>: \<open>PdfReader(pdf_file)\<close> raises.
\<close>

record text_op =
  op_text :: pystr
  op_tm4 :: real
  op_tm5 :: real
  op_fontDict :: "(pystr \<times> pystr) list option"
  op_fontSize :: "real option"

record pdf_page =
  mediabox_width :: real
  mediabox_height :: real
  rotate_entry :: "int option"
  visited :: "text_op list"
  extract_raises :: bool

datatype pdf_source = Unparsable | Reader "pdf_page list"

definition Helvetica :: pystr where
  "Helvetica = ustr ''Helvetica''"

text \<open>
  \<open>visitor_body(text, cm, tm, fontDict, fontSize)\<close>, a closure over the page's width,
  height and rotation and over \<open>text_content\<close>, which it appends to.
\<close>

definition visitor_body :: "real \<Rightarrow> real \<Rightarrow> int \<Rightarrow> text_item list \<Rightarrow> text_op \<Rightarrow> text_item list" where
  "visitor_body pg_width pg_height rotation text_content op =
     (if strip (op_text op) = [] then text_content
      else
        let x = op_tm4 op;
            y = op_tm5 op;
            font_name =
              (case op_fontDict op of
                 None \<Rightarrow> Helvetica
               | Some d \<Rightarrow>
                   if d = [] then Helvetica
                   else (case map_of d (ustr ''/BaseFont'') of
                           None \<Rightarrow> Helvetica
                         | Some n \<Rightarrow> n));
            font_size =
              (case op_fontSize op of
                 None \<Rightarrow> 12
               | Some sz \<Rightarrow> if sz = 0 then 12 else sz)
        in text_content @
             [\<lparr>run_text = strip (op_text op), run_x = x, run_y = y, run_fontSize = font_size,
               run_font = font_name, run_rotation = rotation, run_width = pg_width,
               run_height = pg_height\<rparr>])"

text \<open>
  The body of the loop over \<open>enumerate(reader.pages)\<close> for one page: the runs the visitor
  collects, and the page dictionary, which is appended only when there is a run.
\<close>

definition page_text_content :: "pdf_page \<Rightarrow> text_item list" where
  "page_text_content p =
     foldl
       (visitor_body (mediabox_width p) (mediabox_height p)
          (case rotate_entry p of None \<Rightarrow> 0 | Some r \<Rightarrow> r))
       [] (visited p)"

definition page_dict :: "nat \<Rightarrow> pdf_page \<Rightarrow> page" where
  "page_dict page_num p =
     \<lparr>page_width = mediabox_width p, page_height = mediabox_height p,
      page_rotation = (case rotate_entry p of None \<Rightarrow> 0 | Some r \<Rightarrow> r),
      content = sort_key (\<lambda>i. (- run_y i, run_x i)) (page_text_content p),
      page_number = page_num + 1\<rparr>"

text \<open>The loop: \<open>None\<close> when a page's extraction raises.\<close>

fun extract_pages :: "nat \<Rightarrow> pdf_page list \<Rightarrow> page list option" where
  "extract_pages page_num [] = Some []"
| "extract_pages page_num (p # ps) =
     (if extract_raises p then None
      else
        (case extract_pages (page_num + 1) ps of
           None \<Rightarrow> None
         | Some pages_content \<Rightarrow>
             Some (if page_text_content p \<noteq> [] then page_dict page_num p # pages_content
                   else pages_content)))"

text \<open>\<open>extract_text_with_positions(pdf_file)\<close>: any exception gives the empty list.\<close>

definition extract_text_with_positions :: "pdf_source \<Rightarrow> page list" where
  "extract_text_with_positions pdf_file =
     (case pdf_file of
        Unparsable \<Rightarrow> []
      | Reader pages \<Rightarrow>
          (case extract_pages 0 pages of None \<Rightarrow> [] | Some pages_content \<Rightarrow> pages_content))"

section \<open>pdf\_handler.py: rendering\<close>

text \<open>
  The reportlab canvas is the list of the calls made on it so far. Whether a call raises
  is for reportlab to decide: \<open>canvas_raises\<close> says so from the calls so far and the call
  being made. \<open>nyala_exists\<close> is \<open>os.path.exists(nyala_path)\<close>, \<open>register_font_raises\<close>
  whether \<open>pdfmetrics.registerFont\<close> raises.
\<close>

datatype canvas_op =
    NewCanvas real real
  | SetPageSize real real
  | Rotate int
  | SetFont pystr real
  | DrawString real real pystr
  | ShowPage
  | Save

record renderer_env =
  nyala_exists :: bool
  register_font_raises :: bool
  canvas_raises :: "canvas_op list \<Rightarrow> canvas_op \<Rightarrow> bool"

text \<open>A call on the canvas: \<open>None\<close> when it raises, the canvas after it otherwise.\<close>

definition canvas_call :: "renderer_env \<Rightarrow> canvas_op list \<Rightarrow> canvas_op \<Rightarrow> canvas_op list option" where
  "canvas_call env c op = (if canvas_raises env c op then None else Some (c @ [op]))"

text \<open>
  The bytes \<open>create_pdf_with_layout\<close> returns: \<open>b""\<close>, or what \<open>c.save()\<close> wrote to the
  buffer, which is never empty and is given here by the calls made on the canvas.
\<close>

datatype pdf_bytes = Empty_bytes | Document "canvas_op list"

text \<open>\<open>reportlab.lib.units\<close>: \<open>inch = 72.0\<close>, \<open>cm = inch / 2.54\<close>, \<open>mm = cm * 0.1\<close>.\<close>

definition inch :: real where
  "inch = 72"

definition cm :: real where
  "cm = inch / 2.54"

definition mm :: real where
  "mm = cm * 0.1"

definition min_y_spacing :: real where
  "min_y_spacing = 2 * mm"

text \<open>
  \<open>translated_text.encode('utf-8')\<close> raises on a surrogate code point
  (U+D800..U+DFFF) and on nothing else.
\<close>

definition utf8_encodable :: "pystr \<Rightarrow> bool" where
  "utf8_encodable s = list_all (\<lambda>c. c < 55296 \<or> 57343 < c) s"

text \<open>\<open>translations.get(text, text)\<close>.\<close>

definition get_translation :: "(pystr \<rightharpoonup> pystr) \<Rightarrow> pystr \<Rightarrow> pystr" where
  "get_translation translations text = (case translations text of None \<Rightarrow> text | Some v \<Rightarrow> v)"

text \<open>
  The body of the loop over \<open>sorted_content\<close> for one run (\<open>content\<close> in the source,
  \<open>item\<close> here), on the canvas and \<open>last_y\<close>.
  A \<open>continue\<close>, and an exception caught by the inner \<open>except\<close>, both leave \<open>last_y\<close> as it
  was; a \<open>setFont\<close> that succeeded before \<open>drawString\<close> raised stays on the canvas.
  The defaults of \<open>content.get('fontSize', 12)\<close>, \<open>content.get('x', 0)\<close> and
  \<open>content.get('y', 0)\<close> are never taken, the keys being present.
\<close>

definition draw_content ::
  "renderer_env \<Rightarrow> pystr \<Rightarrow> (pystr \<rightharpoonup> pystr) \<Rightarrow> text_item \<Rightarrow>
     canvas_op list \<times> real option \<Rightarrow> canvas_op list \<times> real option" where
  "draw_content env font_name translations item st =
     (case st of (c, last_y) \<Rightarrow>
        let text = run_text item in
        if text = [] then (c, last_y)
        else
          let translated_text = get_translation translations text in
          if translated_text = [] then (c, last_y)
          else if \<not> utf8_encodable translated_text then (c, last_y)
          else
            let original_font_size = run_fontSize item;
                adjusted_font_size = original_font_size * 1.2
            in (case canvas_call env c (SetFont font_name adjusted_font_size) of
                  None \<Rightarrow> (c, last_y)
                | Some c1 \<Rightarrow>
                    let x = run_x item;
                        y = run_y item;
                        y = (case last_y of
                               None \<Rightarrow> y
                             | Some ly \<Rightarrow>
                                 if \<bar>y - ly\<bar> < min_y_spacing
                                 then ly - adjusted_font_size - min_y_spacing
                                 else y)
                    in (case canvas_call env c1 (DrawString x y translated_text) of
                          None \<Rightarrow> (c1, last_y)
                        | Some c2 \<Rightarrow> (c2, Some y))))"

fun content_loop ::
  "renderer_env \<Rightarrow> pystr \<Rightarrow> (pystr \<rightharpoonup> pystr) \<Rightarrow> text_item list \<Rightarrow>
     canvas_op list \<times> real option \<Rightarrow> canvas_op list \<times> real option" where
  "content_loop env font_name translations [] st = st"
| "content_loop env font_name translations (item # rest) st =
     content_loop env font_name translations rest
       (draw_content env font_name translations item st)"

text \<open>
  The body of the loop over \<open>pages_content\<close> for one page. An exception in
  \<open>setPageSize\<close>, \<open>rotate\<close> or \<open>showPage\<close> is caught by the page's \<open>except\<close> and the
  loop goes on with the canvas as it is. \<open>last_y\<close> starts as \<open>None\<close>. The runs are sorted
  by \<open>-y\<close>; the key's value for a missing \<open>y\<close> is never taken.
\<close>

definition sorted_content :: "page \<Rightarrow> text_item list" where
  "sorted_content pg = sort_key (\<lambda>i. - run_y i) (content pg)"

definition render_page ::
  "renderer_env \<Rightarrow> pystr \<Rightarrow> (pystr \<rightharpoonup> pystr) \<Rightarrow> canvas_op list \<Rightarrow> page \<Rightarrow> canvas_op list" where
  "render_page env font_name translations c pg =
     (case canvas_call env c (SetPageSize (page_width pg) (page_height pg)) of
        None \<Rightarrow> c
      | Some c1 \<Rightarrow>
          (case (if page_rotation pg \<noteq> 0 then canvas_call env c1 (Rotate (page_rotation pg))
                 else Some c1) of
             None \<Rightarrow> c1
           | Some c2 \<Rightarrow>
               (case content_loop env font_name translations (sorted_content pg) (c2, None) of
                  (c3, last_y) \<Rightarrow>
                    (case canvas_call env c3 ShowPage of None \<Rightarrow> c3 | Some c4 \<Rightarrow> c4))))"

text \<open>
  \<open>create_pdf_with_layout(pages_content, translations)\<close>. \<open>pages_content[0]\<close> raises
  on the empty list; that, a failing \<open>Canvas(...)\<close> and a failing \<open>c.save()\<close> are caught by
  the outer \<open>except\<close>, which returns \<open>b""\<close>.
\<close>

definition create_pdf_with_layout ::
  "renderer_env \<Rightarrow> page list \<Rightarrow> (pystr \<rightharpoonup> pystr) \<Rightarrow> pdf_bytes" where
  "create_pdf_with_layout env pages_content translations =
     (case pages_content of
        [] \<Rightarrow> Empty_bytes
      | first_page # _ \<Rightarrow>
          (case canvas_call env [] (NewCanvas (page_width first_page) (page_height first_page)) of
             None \<Rightarrow> Empty_bytes
           | Some c \<Rightarrow>
               let font_name =
                     (if nyala_exists env \<and> \<not> register_font_raises env then ustr ''Nyala''
                      else Helvetica);
                   c = foldl (render_page env font_name translations) c pages_content
               in (case canvas_call env c Save of
                     None \<Rightarrow> Empty_bytes
                   | Some c \<Rightarrow> Document c)))"

section \<open>pdf\_handler.py: translate\_pdf\<close>

text \<open>
  What \<open>translate_pdf\<close> does to the outside, in order: a call of the progress callback
  with its fraction and message, a call of \<open>translator.translate\<close> with its text, the
  output file written with its path and contents. The fractions are Python floats,
  modelled as real numbers. The calls of \<open>print\<close> are left out.
\<close>

datatype event = Callback real pystr | Translate pystr | WriteFile pystr pdf_bytes

text \<open>
  An exception is its message, \<open>str(e)\<close>, which is all the handler reads. The progress
  callback is \<open>None\<close> or a function; called, it returns (\<open>None\<close>) or raises (\<open>Some\<close> of the
  message). The outside: \<open>self.upload_dir\<close>; \<open>open(pdf_path, 'rb')\<close>, which raises or gives
  a source for PyPDF2; \<open>translator.translate\<close>, which raises or returns a string;
  reportlab; writing the output file, which may raise.
\<close>

type_synonym progress_callback = "(real \<Rightarrow> pystr \<Rightarrow> pystr option) option"

record world =
  upload_dir :: pystr
  open_rb :: "pystr \<Rightarrow> pystr + pdf_source"
  translate :: "pystr \<Rightarrow> pystr + pystr"
  renderer :: renderer_env
  write_raises :: "pystr \<Rightarrow> pdf_bytes \<Rightarrow> pystr option"

text \<open>
  A piece of the \<open>try\<close> block gives the events it caused and either the exception that
  left it (\<open>Inl\<close>) or its value. \<open>and_then\<close> runs the next piece unless an exception left
  the first.
\<close>

type_synonym 'a step = "event list \<times> (pystr + 'a)"

definition and_then :: "'a step \<Rightarrow> ('a \<Rightarrow> 'b step) \<Rightarrow> 'b step" where
  "and_then m f =
     (case m of
        (es, Inl e) \<Rightarrow> (es, Inl e)
      | (es, Inr a) \<Rightarrow> (case f a of (es', r) \<Rightarrow> (es @ es', r)))"

text \<open>\<open>if progress_callback: progress_callback(fraction, message)\<close>.\<close>

definition notify :: "progress_callback \<Rightarrow> real \<Rightarrow> pystr \<Rightarrow> unit step" where
  "notify cb fraction message =
     (case cb of
        None \<Rightarrow> ([], Inr ())
      | Some f \<Rightarrow>
          ([Callback fraction message],
           (case f fraction message of None \<Rightarrow> Inr () | Some e \<Rightarrow> Inl e)))"

text \<open>
  The body of the inner loop of the mapping stage for one run, on \<open>translations\<close> and
  \<open>items_processed\<close>. The division raises when \<open>total_items\<close> is zero.
\<close>

definition translate_item ::
  "world \<Rightarrow> progress_callback \<Rightarrow> nat \<Rightarrow> nat \<Rightarrow> text_item \<Rightarrow>
     (pystr \<rightharpoonup> pystr) \<times> nat \<Rightarrow> ((pystr \<rightharpoonup> pystr) \<times> nat) step" where
  "translate_item w cb total_items page_no item st =
     (case st of (translations, items_processed) \<Rightarrow>
        and_then
          (let text = run_text item in
           if text \<noteq> [] \<and> translations text = None then
             (case translate w text of
                Inl e \<Rightarrow> ([Translate text], Inl (ustr ''Translation failed: '' @ e))
              | Inr translated \<Rightarrow> ([Translate text], Inr (translations(text \<mapsto> translated))))
           else ([], Inr translations))
          (\<lambda>translations.
             let items_processed = items_processed + 1 in
             if cb = None then ([], Inr (translations, items_processed))
             else if total_items = 0 then ([], Inl (ustr ''float division by zero''))
             else
               and_then
                 (notify cb (0.2 + (0.6 * real items_processed / real total_items))
                    (ustr ''Translating page '' @ str_nat page_no @ ustr ''...''))
                 (\<lambda>_. ([], Inr (translations, items_processed)))))"

fun translate_items ::
  "world \<Rightarrow> progress_callback \<Rightarrow> nat \<Rightarrow> nat \<Rightarrow> text_item list \<Rightarrow>
     (pystr \<rightharpoonup> pystr) \<times> nat \<Rightarrow> ((pystr \<rightharpoonup> pystr) \<times> nat) step" where
  "translate_items w cb total_items page_no [] st = ([], Inr st)"
| "translate_items w cb total_items page_no (item # rest) st =
     and_then (translate_item w cb total_items page_no item st)
       (translate_items w cb total_items page_no rest)"

fun translate_pages ::
  "world \<Rightarrow> progress_callback \<Rightarrow> nat \<Rightarrow> page list \<Rightarrow>
     (pystr \<rightharpoonup> pystr) \<times> nat \<Rightarrow> ((pystr \<rightharpoonup> pystr) \<times> nat) step" where
  "translate_pages w cb total_items [] st = ([], Inr st)"
| "translate_pages w cb total_items (pg # rest) st =
     and_then (translate_items w cb total_items (page_number pg) (content pg) st)
       (translate_pages w cb total_items rest)"

definition no_text_error :: pystr where
  "no_text_error =
     ustr ''No extractable text found in PDF. Please ensure the PDF contains text and not just images.''"

definition create_failed_error :: pystr where
  "create_failed_error =
     ustr ''Failed to create PDF with translated text. Please try again with a different PDF.''"

definition output_path_of :: "world \<Rightarrow> pystr \<Rightarrow> pystr" where
  "output_path_of w pdf_path = path_join (upload_dir w) (ustr ''translated_'' @ basename pdf_path)"

text \<open>The \<open>try\<close> block of \<open>translate_pdf\<close>.\<close>

definition translate_pdf_try :: "world \<Rightarrow> pystr \<Rightarrow> progress_callback \<Rightarrow> pystr step" where
  "translate_pdf_try w pdf_path cb =
     and_then (notify cb 0.1 (ustr ''Extracting text from PDF...'')) (\<lambda>_.
     and_then ([], open_rb w pdf_path) (\<lambda>file.
       let pages_content = extract_text_with_positions file in
       if pages_content = [] then ([], Inl no_text_error)
       else
         let total_items = sum_list (map (\<lambda>pg. length (content pg)) pages_content) in
         and_then (notify cb 0.2 (ustr ''Translating text...'')) (\<lambda>_.
         and_then (translate_pages w cb total_items pages_content (Map.empty, 0)) (\<lambda>st.
           let translations = fst st in
           and_then (notify cb 0.8 (ustr ''Creating translated PDF...'')) (\<lambda>_.
             let pdf_content = create_pdf_with_layout (renderer w) pages_content translations in
             if pdf_content = Empty_bytes then ([], Inl create_failed_error)
             else
               and_then (notify cb 0.9 (ustr ''Saving translated PDF...'')) (\<lambda>_.
                 let output_path = output_path_of w pdf_path in
                 and_then
                   (case write_raises w output_path pdf_content of
                      Some e \<Rightarrow> ([], Inl e)
                    | None \<Rightarrow> ([WriteFile output_path pdf_content], Inr ())) (\<lambda>_.
                 and_then (notify cb 1.0 (ustr ''Translation complete!'')) (\<lambda>_.
                   ([], Inr output_path)))))))))"

text \<open>The message the \<open>except\<close> block derives from \<open>str(e)\<close>.\<close>

definition could_not_extract_message :: pystr where
  "could_not_extract_message =
     ustr ''Could not extract text from PDF. Please ensure the PDF contains text and not just images.''"

definition translation_failed_message :: pystr where
  "translation_failed_message =
     ustr ''Translation failed. Please try again or check your internet connection.''"

definition could_not_create_message :: pystr where
  "could_not_create_message =
     ustr ''Could not create translated PDF. The file might be corrupted or in an unsupported format.''"

definition error_message :: "pystr \<Rightarrow> pystr" where
  "error_message error_msg =
     (if contains (ustr ''No extractable text'') error_msg then could_not_extract_message
      else if contains (ustr ''Translation failed'') error_msg then translation_failed_message
      else if contains (ustr ''Failed to create PDF'') error_msg then could_not_create_message
      else ustr ''PDF translation error: '' @ error_msg)"

text \<open>
  \<open>translate_pdf(pdf_path, translator, progress_callback)\<close>: the events, and whether the
  call returns (the output path, or \<open>""\<close> from the \<open>except\<close> block) or an exception leaves
  it, which only the callback called in the \<open>except\<close> block can cause.
\<close>

datatype result = Returns pystr | Raises pystr

definition translate_pdf :: "world \<Rightarrow> pystr \<Rightarrow> progress_callback \<Rightarrow> event list \<times> result" where
  "translate_pdf w pdf_path cb =
     (case translate_pdf_try w pdf_path cb of
        (es, Inr output_path) \<Rightarrow> (es, Returns output_path)
      | (es, Inl e) \<Rightarrow>
          (case notify cb (- 1) (error_message e) of
             (es', Inl e') \<Rightarrow> (es @ es', Raises e')
           | (es', Inr u) \<Rightarrow> (es @ es', Returns [])))"

section \<open>Notions used in the statements\<close>

text \<open>A word, as \<open>split\<close> returns it: not empty and free of whitespace.\<close>

definition is_word :: "pystr \<Rightarrow> bool" where
  "is_word w = (w \<noteq> [] \<and> (\<forall>c \<in> set w. \<not> isspace c))"


text \<open>The texts \<open>translator.translate\<close> was called with, in order.\<close>

fun translated_texts :: "event list \<Rightarrow> pystr list" where
  "translated_texts [] = []"
| "translated_texts (e # es) =
     (case e of Translate t \<Rightarrow> t # translated_texts es | _ \<Rightarrow> translated_texts es)"



text \<open>A progress callback that never raises, and no callback at all.\<close>

definition returns_normally :: "progress_callback \<Rightarrow> bool" where
  "returns_normally cb = (case cb of None \<Rightarrow> True | Some f \<Rightarrow> \<forall>fraction message. f fraction message = None)"


text \<open>
  A PDF with no extractable text run: it cannot be parsed, or the extraction of a page
  raises, or every text the visitor is called with is empty or whitespace.
\<close>

definition no_text_runs :: "pdf_source \<Rightarrow> bool" where
  "no_text_runs pdf_file =
     (case pdf_file of
        Unparsable \<Rightarrow> True
      | Reader pages \<Rightarrow>
          list_ex extract_raises pages \<or>
          list_all (\<lambda>p. list_all (\<lambda>op. strip (op_text op) = []) (visited p)) pages)"


text \<open>\<open>total_items\<close>: \<open>sum(len(page['content']) for page in pages_content)\<close>.\<close>

definition total_items_of :: "page list \<Rightarrow> nat" where
  "total_items_of pages_content = sum_list (map (\<lambda>pg. length (content pg)) pages_content)"


text \<open>
  The fractions the progress callback was called with, in order, and the value of
  \<open>0.2 + (0.6 * items_processed / total_items)\<close> in exact arithmetic.
\<close>

fun callback_fractions :: "event list \<Rightarrow> real list" where
  "callback_fractions [] = []"
| "callback_fractions (e # es) =
     (case e of Callback fraction message \<Rightarrow> fraction # callback_fractions es
      | _ \<Rightarrow> callback_fractions es)"

definition exact_progress :: "nat \<Rightarrow> nat \<Rightarrow> real" where
  "exact_progress total_items k = 0.2 + 0.6 * real k / real total_items"

section \<open>Example inputs\<close>

text \<open>
  Pages as PyPDF2 gives them, a canvas on which no call raises, runs and a dictionary of
  translations, for the concrete instances below.
\<close>

definition blank_page :: pdf_page where
  "blank_page =
     \<lparr>mediabox_width = 595, mediabox_height = 842, rotate_entry = None,
      visited = [\<lparr>op_text = ustr ''  '', op_tm4 = 0, op_tm5 = 0, op_fontDict = None,
                  op_fontSize = None\<rparr>],
      extract_raises = False\<rparr>"

definition hello_page :: pdf_page where
  "hello_page =
     \<lparr>mediabox_width = 595, mediabox_height = 842, rotate_entry = None,
      visited = [\<lparr>op_text = ustr ''Hello, World!'', op_tm4 = 100, op_tm5 = 750,
                  op_fontDict = None, op_fontSize = Some 12\<rparr>],
      extract_raises = False\<rparr>"

definition plain_canvas :: renderer_env where
  "plain_canvas =
     \<lparr>nyala_exists = False, register_font_raises = False, canvas_raises = (\<lambda>c op. False)\<rparr>"

definition run_at :: "pystr \<Rightarrow> real \<Rightarrow> text_item" where
  "run_at t y =
     \<lparr>run_text = t, run_x = 100, run_y = y, run_fontSize = 12, run_font = Helvetica,
      run_rotation = 0, run_width = 595, run_height = 842\<rparr>"


definition three_translations :: "pystr \<rightharpoonup> pystr" where
  "three_translations =
     [ustr ''Hello'' \<mapsto> ustr ''selam'', ustr ''skip'' \<mapsto> [], ustr ''World'' \<mapsto> ustr ''alem'']"

text \<open>
  A world in which the file opens and holds the given PDF, the translator prefixes its
  input with \<open>am:\<close>, no call on the canvas raises and the output file can be written.
\<close>

definition echo_world :: "pdf_source \<Rightarrow> world" where
  "echo_world pdf_file =
     \<lparr>upload_dir = ustr ''uploads'', open_rb = (\<lambda>p. Inr pdf_file),
      translate = (\<lambda>t. Inr (ustr ''am:'' @ t)), renderer = plain_canvas,
      write_raises = (\<lambda>p b. None)\<rparr>"



section \<open>Splitting and joining\<close>

lemma isspace_32: "isspace 32"
  by (simp add: isspace_def)

lemma split_acc_nonspace:
  "\<forall>c \<in> set u. \<not> isspace c \<Longrightarrow> split_acc w (u @ rest) = split_acc (w @ u) rest"
  by (induction u arbitrary: w) simp_all

lemma split_acc_words:
  "\<forall>c \<in> set w. \<not> isspace c \<Longrightarrow> \<forall>v \<in> set (split_acc w s). is_word v"
proof (induction s arbitrary: w)
  case Nil
  then show ?case by (simp add: is_word_def)
next
  case (Cons c cs)
  have empty: "\<forall>v \<in> set (split_acc [] cs). is_word v"
    by (rule Cons.IH) simp
  show ?case
  proof (cases "isspace c")
    case True
    with empty Cons.prems show ?thesis by (simp add: is_word_def)
  next
    case False
    with Cons.prems have "\<forall>v \<in> set (split_acc (w @ [c]) cs). is_word v"
      by (intro Cons.IH) simp
    with False show ?thesis by simp
  qed
qed

lemma split_ws_words: "\<forall>v \<in> set (split_ws s). is_word v"
  unfolding split_ws_def by (rule split_acc_words) simp

lemma split_acc_join:
  "\<forall>v \<in> set ws. is_word v \<Longrightarrow> split_acc [] (join_sp ws) = ws"
proof (induction "[32::nat]" ws rule: join.induct)
  case 1
  show ?case by simp
next
  case One: (2 x)
  then have "split_acc [] (x @ []) = split_acc ([] @ x) []"
    by (intro split_acc_nonspace) (simp add: is_word_def)
  with One show ?case by (simp add: is_word_def)
next
  case More: (3 x y ys)
  then have x: "x \<noteq> []" "\<forall>c \<in> set x. \<not> isspace c"
    by (simp_all add: is_word_def)
  have "split_acc [] (x @ 32 # join_sp (y # ys)) = split_acc ([] @ x) (32 # join_sp (y # ys))"
    using x(2) by (rule split_acc_nonspace)
  also have "\<dots> = x # split_acc [] (join_sp (y # ys))"
    using x(1) by (simp add: isspace_32)
  also have "\<dots> = x # y # ys"
    using More by simp
  finally show ?case by simp
qed

lemma split_ws_join: "\<forall>v \<in> set ws. is_word v \<Longrightarrow> split_ws (join_sp ws) = ws"
  unfolding split_ws_def by (rule split_acc_join)

text \<open>
  C8. For every input string \<open>t\<close>, cleaning a cleaned string changes nothing:
  \<open>clean_text(clean_text(t)) == clean_text(t)\<close>.
\<close>

theorem clean_text_idempotent: "clean_text (clean_text t) = clean_text t"
  unfolding clean_text_def by (simp add: split_ws_join split_ws_words)

section \<open>Chunking\<close>

lemma ustr_simps: "ustr [] = []" "ustr (c # cs) = of_char c # ustr cs"
  by (simp_all add: ustr_def)

lemma join_snoc: "join_sp (xs @ [s]) = (if xs = [] then s else join_sp xs @ 32 # s)"
  by (induction "[32::nat]" xs rule: join.induct) simp_all

lemma join_append:
  "a \<noteq> [] \<Longrightarrow> b \<noteq> [] \<Longrightarrow> join_sp (a @ b) = join_sp a @ 32 # join_sp b"
  by (induction "[32::nat]" a rule: join.induct) (simp_all, cases b, simp_all)

lemma split_loop_join:
  "cur \<noteq> [] \<Longrightarrow> split_loop m chunks cur ws = (cs, c) \<Longrightarrow>
     c \<noteq> [] \<and> join_sp (cs @ [join_sp c]) = join_sp (chunks @ [join_sp (cur @ ws)])"
proof (induction ws arbitrary: chunks cur)
  case Nil
  then show ?case by simp
next
  case (Cons w ws)
  show ?case
  proof (cases "int (length (join_sp (cur @ [w]))) > m")
    case True
    with Cons.prems have "split_loop m (chunks @ [join_sp cur]) [w] ws = (cs, c)"
      by (cases cur) (simp_all add: Let_def)
    then have "c \<noteq> [] \<and> join_sp (cs @ [join_sp c]) = join_sp ((chunks @ [join_sp cur]) @ [join_sp ([w] @ ws)])"
      by (intro Cons.IH) simp_all
    moreover have "join_sp ((chunks @ [join_sp cur]) @ [join_sp ([w] @ ws)]) = join_sp (chunks @ [join_sp (cur @ w # ws)])"
      using Cons.prems(1) by (simp add: join_snoc join_append)
    ultimately show ?thesis by simp
  next
    case False
    with Cons.prems have "split_loop m chunks (cur @ [w]) ws = (cs, c)"
      by (simp add: Let_def)
    then have "c \<noteq> [] \<and> join_sp (cs @ [join_sp c]) = join_sp (chunks @ [join_sp ((cur @ [w]) @ ws)])"
      by (intro Cons.IH) simp_all
    then show ?thesis by simp
  qed
qed

lemma split_text_join:
  "join_sp (split_text t m) =
     (case split_ws t of [] \<Rightarrow> []
      | w # ws \<Rightarrow> if int (length w) > m then w @ 32 # clean_text t else clean_text t)"
proof (cases "split_ws t")
  case Nil
  then show ?thesis by (simp add: split_text_def)
next
  case (Cons w ws)
  obtain cs c where res: "split_loop m [] [] (w # ws) = (cs, c)"
    by (cases "split_loop m [] [] (w # ws)")
  show ?thesis
  proof (cases "int (length w) > m")
    case True
    with res have "split_loop m [w] [w] ws = (cs, c)" by (simp add: Let_def)
    then have "c \<noteq> [] \<and> join_sp (cs @ [join_sp c]) = join_sp ([w] @ [join_sp ([w] @ ws)])"
      by (intro split_loop_join) simp_all
    with True Cons res show ?thesis
      by (simp add: split_text_def clean_text_def)
  next
    case False
    with res have "split_loop m [] [w] ws = (cs, c)" by (simp add: Let_def)
    then have "c \<noteq> [] \<and> join_sp (cs @ [join_sp c]) = join_sp ([] @ [join_sp ([w] @ ws)])"
      by (intro split_loop_join) simp_all
    with False Cons res show ?thesis
      by (simp add: split_text_def clean_text_def)
  qed
qed

lemma split_loop_extends:
  "split_loop m chunks cur ws = (cs, c) \<Longrightarrow> \<exists>rest. cs = chunks @ rest"
proof (induction ws arbitrary: chunks cur)
  case Nil
  then show ?case by simp
next
  case (Cons w ws)
  show ?case
  proof (cases "int (length (join_sp (cur @ [w]))) > m")
    case True
    with Cons.prems obtain p where "split_loop m (chunks @ [p]) [w] ws = (cs, c)"
      by (simp add: Let_def)
    from Cons.IH [OF this] show ?thesis by auto
  next
    case False
    with Cons.prems have "split_loop m chunks (cur @ [w]) ws = (cs, c)"
      by (simp add: Let_def)
    from Cons.IH [OF this] show ?thesis .
  qed
qed

text \<open>
  The first word of a text, when it is longer than \<open>max_length\<close>, is emitted twice: it is
  appended to \<open>chunks\<close> without being popped, and assigned to \<open>current_chunk\<close> as well.
\<close>

lemma split_text_first_word_twice:
  assumes "split_ws t = w # ws" and "int (length w) > m"
  shows "\<exists>rest. split_text t m = w # w # rest"
proof (cases ws)
  case Nil
  with assms show ?thesis by (simp add: split_text_def Let_def)
next
  case (Cons x xs)
  have "int (length (join_sp [w, x])) > m"
    using assms(2) by simp
  then have step: "split_loop m [] [] (w # x # xs) = split_loop m [w, w] [x] xs"
    using assms(2) by (simp add: Let_def)
  obtain cs c where res: "split_loop m [w, w] [x] xs = (cs, c)"
    by (cases "split_loop m [w, w] [x] xs")
  from split_loop_extends [OF res] obtain r where "cs = [w, w] @ r" ..
  with assms(1) Cons step res show ?thesis
    by (simp add: split_text_def)
qed

text \<open>
  C1. For every text \<open>t\<close> and every \<open>max_length > 0\<close>, the chunks of
  \<open>split_text(t, max_length)\<close> joined with single spaces give \<open>clean_text(t)\<close>, the case of
  a word longer than \<open>max_length\<close> set aside: no word of \<open>t\<close> is longer than \<open>max_length\<close>.
\<close>

theorem split_text_rejoin:
  assumes "0 < max_length"
    and "\<forall>w \<in> set (split_ws t). int (length w) \<le> max_length"
  shows "join_sp (split_text t max_length) = clean_text t"
proof (cases "split_ws t")
  case Nil
  then show ?thesis by (simp add: split_text_join clean_text_def)
next
  case (Cons w ws)
  with assms(2) have "\<not> int (length w) > max_length" by simp
  with Cons show ?thesis by (simp add: split_text_join)
qed

theorem split_text_rejoin_witness:
  "split_ws (ustr ''ab  cd ef'') = [ustr ''ab'', ustr ''cd'', ustr ''ef''] \<and>
   split_text (ustr ''ab  cd ef'') 5 = [ustr ''ab cd'', ustr ''ef''] \<and>
   join_sp (split_text (ustr ''ab  cd ef'') 5) = clean_text (ustr ''ab  cd ef'')"
proof -
  have ws: "split_ws (ustr ''ab  cd ef'') = [ustr ''ab'', ustr ''cd'', ustr ''ef'']"
    by (simp add: ustr_simps split_ws_def isspace_def)
  have short: "\<forall>w \<in> set (split_ws (ustr ''ab  cd ef'')). int (length w) \<le> 5"
    unfolding ws by (simp add: ustr_simps)
  have pos: "(0::int) < 5" by simp
  have chunks: "split_text (ustr ''ab  cd ef'') 5 = [ustr ''ab cd'', ustr ''ef'']"
    unfolding split_text_def ws by (simp add: ustr_simps Let_def)
  from split_text_rejoin [OF pos short] ws chunks show ?thesis by simp
qed

text \<open>
  C2. A word longer than \<open>max_length\<close> is emitted alone as its own chunk, once per
  occurrence in the text. At the text \<open>abcdef\<close> with \<open>max_length = 3\<close> the only word is
  emitted twice: the first word of a text, when it is too long, is appended to \<open>chunks\<close>
  and also kept as \<open>current_chunk\<close>.
\<close>

theorem split_text_long_first_word:
  "split_ws (ustr ''abcdef'') = [ustr ''abcdef''] \<and>
   split_text (ustr ''abcdef'') 3 = [ustr ''abcdef'', ustr ''abcdef'']"
  by (simp add: ustr_simps split_ws_def isspace_def split_text_def Let_def)

section \<open>Extraction\<close>

lemma extract_pages_None: "extract_pages n ps = None \<longleftrightarrow> list_ex extract_raises ps"
  by (induction ps arbitrary: n) (auto split: option.splits)

lemma extract_pages_Some:
  "extract_pages n ps = Some pc \<Longrightarrow>
     pc = map (\<lambda>i. page_dict (n + i) (ps ! i))
            (filter (\<lambda>i. page_text_content (ps ! i) \<noteq> []) [0..<length ps])"
proof (induction ps arbitrary: n pc)
  case Nil
  then show ?case by simp
next
  case (Cons p ps)
  from Cons.prems obtain rest where rest: "extract_pages (n + 1) ps = Some rest"
    and pc: "pc = (if page_text_content p \<noteq> [] then page_dict n p # rest else rest)"
    by (auto split: if_splits option.splits)
  have idx: "[0..<length (p # ps)] = 0 # map Suc [0..<length ps]"
    by (simp add: upt_conv_Cons map_Suc_upt del: upt_Suc)
  from Cons.IH [OF rest] have
    "rest = map (\<lambda>i. page_dict (n + 1 + i) (ps ! i))
              (filter (\<lambda>i. page_text_content (ps ! i) \<noteq> []) [0..<length ps])" .
  then show ?case
    unfolding pc idx by (simp add: filter_map o_def)
qed

lemma extract_formula:
  "extract_text_with_positions (Reader pages) =
     (if list_ex extract_raises pages then []
      else map (\<lambda>i. page_dict i (pages ! i))
             (filter (\<lambda>i. page_text_content (pages ! i) \<noteq> []) [0..<length pages]))"
proof (cases "extract_pages 0 pages")
  case None
  then have "list_ex extract_raises pages"
    by (simp add: extract_pages_None)
  with None show ?thesis
    by (simp add: extract_text_with_positions_def)
next
  case (Some pc)
  then have "\<not> list_ex extract_raises pages"
    using extract_pages_None [of 0 pages] by simp
  with Some extract_pages_Some [OF Some] show ?thesis
    by (simp add: extract_text_with_positions_def)
qed

text \<open>
  C10. Each page returned by \<open>extract_text_with_positions\<close> carries as \<open>page_number\<close> its
  1-based index in the document: the page numbers returned are, in order, \<open>i + 1\<close> for the
  indices \<open>i\<close> of the pages that have a run (none when extraction raises). Pages without
  runs are left out, so the numbers can have gaps and need not start at 1: a document
  whose first and third pages have no text and whose second and fourth have some gives
  the page numbers 2 and 4.
\<close>

theorem page_number_is_document_index:
  "map page_number (extract_text_with_positions (Reader pages)) =
     (if list_ex extract_raises pages then []
      else map (\<lambda>i. i + 1) (filter (\<lambda>i. page_text_content (pages ! i) \<noteq> []) [0..<length pages]))
   \<and> map page_number
       (extract_text_with_positions (Reader [blank_page, hello_page, blank_page, hello_page])) =
     [2, 4]"
proof
  show "map page_number (extract_text_with_positions (Reader pages)) =
     (if list_ex extract_raises pages then []
      else map (\<lambda>i. i + 1) (filter (\<lambda>i. page_text_content (pages ! i) \<noteq> []) [0..<length pages]))"
    by (simp add: extract_formula page_dict_def o_def)
  show "map page_number
       (extract_text_with_positions (Reader [blank_page, hello_page, blank_page, hello_page])) =
     [2, 4]"
    by (simp add: extract_text_with_positions_def blank_page_def hello_page_def
        page_text_content_def visitor_body_def strip_def ustr_simps isspace_def page_dict_def
        Let_def)
qed

section \<open>Rendering\<close>



lemma draw_content_eq:
  "draw_content env font_name translations item (c, last_y) =
     (let t = get_translation translations (run_text item);
          a = run_fontSize item * 1.2;
          y = (case last_y of
                 None \<Rightarrow> run_y item
               | Some ly \<Rightarrow>
                   if \<bar>run_y item - ly\<bar> < min_y_spacing then ly - a - min_y_spacing
                   else run_y item)
      in if run_text item = [] \<or> t = [] \<or> \<not> utf8_encodable t \<or>
            canvas_raises env c (SetFont font_name a)
         then (c, last_y)
         else if canvas_raises env (c @ [SetFont font_name a]) (DrawString (run_x item) y t)
         then (c @ [SetFont font_name a], last_y)
         else (c @ [SetFont font_name a, DrawString (run_x item) y t], Some y))"
  by (simp add: draw_content_def canvas_call_def Let_def)

lemma draw_content_drawn:
  fixes item :: text_item and last_y :: "real option"
  defines "fsz \<equiv> run_fontSize item * 1.2"
  defines "y \<equiv> (case last_y of
                None \<Rightarrow> run_y item
              | Some ly \<Rightarrow>
                  if \<bar>run_y item - ly\<bar> < 2 * mm then ly - run_fontSize item * 1.2 - 2 * mm
                  else run_y item)"
  assumes "run_text item \<noteq> []"
    and "get_translation translations (run_text item) \<noteq> []"
    and "utf8_encodable (get_translation translations (run_text item))"
    and "\<not> canvas_raises env c (SetFont font_name fsz)"
    and "\<not> canvas_raises env (c @ [SetFont font_name fsz])
           (DrawString (run_x item) y (get_translation translations (run_text item)))"
  shows "draw_content env font_name translations item (c, last_y) =
           (c @ [SetFont font_name fsz,
                 DrawString (run_x item) y (get_translation translations (run_text item))],
            Some y)"
proof -
  have y: "y = (case last_y of
                 None \<Rightarrow> run_y item
               | Some ly \<Rightarrow>
                   if \<bar>run_y item - ly\<bar> < min_y_spacing then ly - fsz - min_y_spacing
                   else run_y item)"
    unfolding y_def fsz_def min_y_spacing_def ..
  show ?thesis
    unfolding draw_content_eq Let_def y [symmetric] fsz_def [symmetric]
    using assms(3-7) by simp
qed




text \<open>
  C4. A run that is drawn is drawn at font size \<open>fontSize * 1.2\<close>, at its stored \<open>x\<close>, and at
  its stored \<open>y\<close> unless \<open>last_y\<close> is set and \<open>|y - last_y| < 2 mm\<close>, when \<open>y\<close> is
  \<open>last_y - fontSize * 1.2 - 2 mm\<close>; \<open>last_y\<close> becomes that \<open>y\<close>. A run is drawn when its
  text and its resolved translation are not empty, the translation can be encoded, and
  neither \<open>setFont\<close> nor \<open>drawString\<close> raises.
\<close>

theorem draw_content_placement:
  fixes item :: text_item and last_y :: "real option"
  defines "adjusted_font_size \<equiv> run_fontSize item * 1.2"
  defines "y \<equiv> (case last_y of
                None \<Rightarrow> run_y item
              | Some ly \<Rightarrow>
                  if \<bar>run_y item - ly\<bar> < 2 * mm then ly - run_fontSize item * 1.2 - 2 * mm
                  else run_y item)"
  assumes "run_text item \<noteq> []"
    and "get_translation translations (run_text item) \<noteq> []"
    and "utf8_encodable (get_translation translations (run_text item))"
    and "\<not> canvas_raises env c (SetFont font_name adjusted_font_size)"
    and "\<not> canvas_raises env (c @ [SetFont font_name adjusted_font_size])
           (DrawString (run_x item) y (get_translation translations (run_text item)))"
  shows "draw_content env font_name translations item (c, last_y) =
           (c @ [SetFont font_name adjusted_font_size,
                 DrawString (run_x item) y (get_translation translations (run_text item))],
            Some y)"
  unfolding adjusted_font_size_def y_def
  using assms(3-7) unfolding adjusted_font_size_def y_def
  by (rule draw_content_drawn)

theorem draw_content_placement_witness:
  "draw_content plain_canvas Helvetica three_translations (run_at (ustr ''World'') 751)
     ([], Some 750) =
   ([SetFont Helvetica 14.4, DrawString 100 (750 - 14.4 - 2 * mm) (ustr ''alem'')],
    Some (750 - 14.4 - 2 * mm))"
proof -
  have t: "get_translation three_translations (run_text (run_at (ustr ''World'') 751)) = ustr ''alem''"
    by (simp add: get_translation_def three_translations_def run_at_def ustr_simps)
  have 1: "run_text (run_at (ustr ''World'') 751) \<noteq> []"
    by (simp add: run_at_def ustr_simps)
  have 2: "get_translation three_translations (run_text (run_at (ustr ''World'') 751)) \<noteq> []"
    unfolding t by (simp add: ustr_simps)
  have 3: "utf8_encodable (get_translation three_translations (run_text (run_at (ustr ''World'') 751)))"
    unfolding t by (simp add: ustr_simps utf8_encodable_def)
  have 4: "\<not> canvas_raises plain_canvas c op" for c op
    by (simp add: plain_canvas_def)
  have mm: "1 < 2 * mm" by (simp add: mm_def cm_def inch_def)
  from draw_content_placement [OF 1 2 3 4 4, of Helvetica "[]" "Some 750"] mm
  show ?thesis
    unfolding t by (simp add: run_at_def)
qed





section \<open>The mapping stage\<close>

lemma translated_texts_append:
  "translated_texts (a @ b) = translated_texts a @ translated_texts b"
  by (induction a) (simp_all split: event.splits)


lemma fst_and_then:
  "fst (and_then m f) = fst m @ (case snd m of Inl e \<Rightarrow> [] | Inr a \<Rightarrow> fst (f a))"
  by (cases m) (auto simp: and_then_def split: sum.splits prod.splits)

lemma snd_and_then:
  "snd (and_then m f) = (case snd m of Inl e \<Rightarrow> Inl e | Inr a \<Rightarrow> snd (f a))"
  by (cases m) (auto simp: and_then_def split: sum.splits prod.splits)

lemma fst_notify: "fst (notify cb fr msg) = (if cb = None then [] else [Callback fr msg])"
  by (simp add: notify_def split: option.splits)





section \<open>translate\_pdf on a PDF without text\<close>

lemma and_then_simps:
  "and_then (es, Inl e) f = (es, Inl e)"
  "and_then (es, Inr a) f = (es @ fst (f a), snd (f a))"
  by (simp_all add: and_then_def split: prod.splits)

lemma visitor_blank:
  "list_all (\<lambda>op. strip (op_text op) = []) ops \<Longrightarrow> foldl (visitor_body pw ph r) acc ops = acc"
  by (induction ops arbitrary: acc) (simp_all add: visitor_body_def)

lemma extract_pages_blank:
  "list_all (\<lambda>p. list_all (\<lambda>op. strip (op_text op) = []) (visited p)) pages \<Longrightarrow>
     extract_pages n pages = Some pc \<Longrightarrow> pc = []"
  by (induction pages arbitrary: n pc)
    (auto simp: page_text_content_def visitor_blank split: if_splits option.splits)

lemma no_text_runs_extract:
  assumes "no_text_runs pdf_file"
  shows "extract_text_with_positions pdf_file = []"
proof (cases pdf_file)
  case Unparsable
  then show ?thesis by (simp add: extract_text_with_positions_def)
next
  case (Reader pages)
  show ?thesis
  proof (cases "extract_pages 0 pages")
    case None
    with Reader show ?thesis by (simp add: extract_text_with_positions_def)
  next
    case (Some pc)
    then have "\<not> list_ex extract_raises pages"
      using extract_pages_None [of 0 pages] by simp
    with assms Reader have "list_all (\<lambda>p. list_all (\<lambda>op. strip (op_text op) = []) (visited p)) pages"
      by (simp add: no_text_runs_def)
    from extract_pages_blank [OF this Some] Some Reader show ?thesis
      by (simp add: extract_text_with_positions_def)
  qed
qed

lemma try_no_text:
  assumes "open_rb w pdf_path = Inr pdf_file" and "extract_text_with_positions pdf_file = []"
  shows "translate_pdf_try w pdf_path cb =
     (fst (notify cb 0.1 (ustr ''Extracting text from PDF...'')),
      (case snd (notify cb 0.1 (ustr ''Extracting text from PDF...'')) of
         Inl e \<Rightarrow> Inl e | Inr u \<Rightarrow> Inl no_text_error))"
  using assms
  by (cases "notify cb 0.1 (ustr ''Extracting text from PDF...'')")
     (auto simp: translate_pdf_try_def and_then_simps Let_def split: sum.splits)

lemma contains_prefix: "contains sub (sub @ rest)"
proof (cases "sub @ rest")
  case Nil
  then show ?thesis by simp
next
  case (Cons a list)
  have "startswith (sub @ rest) sub"
    by (induction sub) simp_all
  then have "startswith (a # list) sub"
    by (simp add: Cons)
  then show ?thesis
    by (simp add: Cons)
qed

lemma error_message_no_text: "error_message no_text_error = could_not_extract_message"
proof -
  have eq: "no_text_error = ustr ''No extractable text'' @
      ustr '' found in PDF. Please ensure the PDF contains text and not just images.''"
    by (simp add: no_text_error_def ustr_def)
  have "contains (ustr ''No extractable text'') no_text_error"
    unfolding eq by (rule contains_prefix)
  then show ?thesis by (simp add: error_message_def)
qed

lemma notify_Callback: "set (fst (notify cb fr msg)) \<subseteq> {Callback fr msg}"
  by (simp add: fst_notify)

text \<open>
  C6. For a PDF with no extractable text run (a source that cannot be parsed included),
  \<open>extract_text_with_positions\<close> returns the empty list and \<open>translate_pdf\<close> never calls
  the translator; with a callback that does not raise it reports the no-extractable-text
  message with the negative fraction and returns \<open>""\<close>.
\<close>

theorem no_text_no_translation:
  assumes "no_text_runs pdf_file" and "open_rb w pdf_path = Inr pdf_file"
  shows "extract_text_with_positions pdf_file = [] \<and>
         translated_texts (fst (translate_pdf w pdf_path cb)) = [] \<and>
         (returns_normally cb \<longrightarrow>
            translate_pdf w pdf_path cb =
              ((if cb = None then []
                else [Callback 0.1 (ustr ''Extracting text from PDF...''),
                      Callback (- 1) could_not_extract_message]),
               Returns []))"
proof -
  have e: "extract_text_with_positions pdf_file = []"
    using assms(1) by (rule no_text_runs_extract)
  note t = try_no_text [OF assms(2) e, of cb]
  have a: "translated_texts (fst (translate_pdf w pdf_path cb)) = []"
    unfolding translate_pdf_def t
    by (cases cb)
      (auto simp: notify_def translated_texts_append
        split: sum.splits option.splits prod.splits)
  have b: "translate_pdf w pdf_path cb =
              ((if cb = None then []
                else [Callback 0.1 (ustr ''Extracting text from PDF...''),
                      Callback (- 1) could_not_extract_message]),
               Returns [])" if "returns_normally cb"
    using that unfolding translate_pdf_def t
    by (cases cb)
      (auto simp: notify_def returns_normally_def error_message_no_text)
  from e a b show ?thesis by blast
qed

theorem no_text_no_translation_witness:
  "no_text_runs (Reader [blank_page]) \<and>
   extract_text_with_positions (Reader [blank_page]) = [] \<and>
   translate_pdf (echo_world (Reader [blank_page])) (ustr ''in.pdf'') (Some (\<lambda>fraction message. None)) =
     ([Callback 0.1 (ustr ''Extracting text from PDF...''),
       Callback (- 1) could_not_extract_message],
      Returns [])"
proof -
  have 1: "no_text_runs (Reader [blank_page])"
    by (simp add: no_text_runs_def blank_page_def strip_def ustr_simps isspace_def)
  have 2: "open_rb (echo_world (Reader [blank_page])) (ustr ''in.pdf'') = Inr (Reader [blank_page])"
    by (simp add: echo_world_def)
  have 3: "returns_normally (Some (\<lambda>fraction message. None))"
    by (simp add: returns_normally_def)
  from no_text_no_translation [OF 1 2, of "Some (\<lambda>fraction message. None)"] 1 3
  show ?thesis by simp
qed

section \<open>Translator calls of translate\_pdf\<close>


lemma snd_notify_cases: "snd (notify cb fr msg) = Inr () \<or> (\<exists>e. snd (notify cb fr msg) = Inl e)"
  by (cases "snd (notify cb fr msg)") auto



















section \<open>Failures of translate\_pdf\<close>





















text \<open>
  The callback is called in the \<open>except\<close> block outside any \<open>try\<close>: when it raises there,
  the exception leaves \<open>translate_pdf\<close>.
\<close>

lemma sentinel_raise_propagates:
  assumes "translate_pdf_try w pdf_path (Some f) = (es, Inl e)"
    and "f (- 1) (error_message e) = Some e'"
  shows "translate_pdf w pdf_path (Some f) =
           (es @ [Callback (- 1) (error_message e)], Raises e')"
  using assms by (simp add: translate_pdf_def notify_def)

section \<open>Progress fractions of the mapping stage, in exact arithmetic\<close>

text \<open>
  The source computes the fractions in floating point. Here they are real numbers: a
  mapping stage that ends normally with a callback reports, for a document of \<open>n\<close> runs,
  \<open>0.2 + 0.6 * k / n\<close> for \<open>k = 1, \<dots>, n\<close>, one fraction per run whether or not
  the run's text was translated before. These values increase strictly and the last is
  \<open>0.8\<close>. Nothing is said here about the rounded values the source reports.
\<close>

lemma callback_fractions_append:
  "callback_fractions (a @ b) = callback_fractions a @ callback_fractions b"
  by (induction a) (simp_all split: event.splits)

lemma translate_item_fractions:
  assumes "snd (translate_item w cb n pno item (tr, k)) = Inr (tr', k')"
    and "cb \<noteq> None"
  shows "callback_fractions (fst (translate_item w cb n pno item (tr, k))) = [exact_progress n (k + 1)]
         \<and> k' = k + 1"
  using assms unfolding translate_item_def exact_progress_def
  by (auto simp: fst_and_then snd_and_then fst_notify Let_def split: sum.splits if_splits)

lemma translate_items_fractions:
  assumes "snd (translate_items w cb n pno items (tr, k)) = Inr (tr', k')"
    and "cb \<noteq> None"
  shows "callback_fractions (fst (translate_items w cb n pno items (tr, k))) =
           map (exact_progress n) [k + 1 ..< k + length items + 1]
         \<and> k' = k + length items"
  using assms(1)
proof (induction items arbitrary: tr k)
  case Nil
  then show ?case by simp
next
  case (Cons item rest)
  from Cons.prems obtain st where
    one: "snd (translate_item w cb n pno item (tr, k)) = Inr st"
    by (cases "snd (translate_item w cb n pno item (tr, k))") (auto simp: snd_and_then)
  obtain tr1 k1 where st: "st = (tr1, k1)" by (cases st)
  from translate_item_fractions [OF one [unfolded st] assms(2)] have
    f1: "callback_fractions (fst (translate_item w cb n pno item (tr, k))) = [exact_progress n (k + 1)]"
    and k1: "k1 = k + 1" by auto
  from Cons.prems one st have
    "snd (translate_items w cb n pno rest (tr1, k1)) = Inr (tr', k')"
    by (simp add: snd_and_then)
  from Cons.IH [OF this] have
    f2: "callback_fractions (fst (translate_items w cb n pno rest (tr1, k1))) =
           map (exact_progress n) [k1 + 1 ..< k1 + length rest + 1]"
    and k': "k' = k1 + length rest" by auto
  have "[k + 1 ..< k + length (item # rest) + 1] = (k + 1) # [k1 + 1 ..< k1 + length rest + 1]"
    unfolding k1 by (subst upt_rec) simp
  with f1 f2 one st k' k1 show ?case
    by (simp add: fst_and_then callback_fractions_append)
qed

lemma translate_pages_fractions:
  assumes "snd (translate_pages w cb n pages (tr, k)) = Inr (tr', k')"
    and "cb \<noteq> None"
  shows "callback_fractions (fst (translate_pages w cb n pages (tr, k))) =
           map (exact_progress n) [k + 1 ..< k + total_items_of pages + 1]
         \<and> k' = k + total_items_of pages"
  using assms(1)
proof (induction pages arbitrary: tr k)
  case Nil
  then show ?case by (simp add: total_items_of_def)
next
  case (Cons pg rest)
  from Cons.prems obtain st where
    one: "snd (translate_items w cb n (page_number pg) (content pg) (tr, k)) = Inr st"
    by (cases "snd (translate_items w cb n (page_number pg) (content pg) (tr, k))")
      (auto simp: snd_and_then)
  obtain tr1 k1 where st: "st = (tr1, k1)" by (cases st)
  from translate_items_fractions [OF one [unfolded st] assms(2)] have
    f1: "callback_fractions (fst (translate_items w cb n (page_number pg) (content pg) (tr, k))) =
           map (exact_progress n) [k + 1 ..< k + length (content pg) + 1]"
    and k1: "k1 = k + length (content pg)" by auto
  from Cons.prems one st have
    "snd (translate_pages w cb n rest (tr1, k1)) = Inr (tr', k')"
    by (simp add: snd_and_then)
  from Cons.IH [OF this] have
    f2: "callback_fractions (fst (translate_pages w cb n rest (tr1, k1))) =
           map (exact_progress n) [k1 + 1 ..< k1 + total_items_of rest + 1]"
    and k': "k' = k1 + total_items_of rest" by auto
  have t: "total_items_of (pg # rest) = length (content pg) + total_items_of rest"
    by (simp add: total_items_of_def)
  have "[k + 1 ..< k + total_items_of (pg # rest) + 1] =
      [k + 1 ..< k + length (content pg) + 1] @ [k1 + 1 ..< k1 + total_items_of rest + 1]"
    unfolding t k1
    using upt_add_eq_append [of "k + 1" "k + length (content pg) + 1" "total_items_of rest"]
    by (simp add: ac_simps)
  with f1 f2 one st k' k1 t show ?case
    by (simp add: fst_and_then callback_fractions_append)
qed

lemma exact_progress_last: "0 < n \<Longrightarrow> exact_progress n n = 0.8"
  by (simp add: exact_progress_def)

lemma exact_progress_strict: "0 < n \<Longrightarrow> j < k \<Longrightarrow> exact_progress n j < exact_progress n k"
  by (simp add: exact_progress_def divide_strict_right_mono)

lemma mapping_fractions_exact:
  assumes "snd (translate_pages w cb (total_items_of pages) pages (Map.empty, 0)) = Inr st"
    and "cb \<noteq> None"
  shows "callback_fractions
           (fst (translate_pages w cb (total_items_of pages) pages (Map.empty, 0))) =
         map (exact_progress (total_items_of pages)) [1 ..< total_items_of pages + 1]"
proof -
  obtain tr' k' where "st = (tr', k')" by (cases st)
  with assms(1) have
    "snd (translate_pages w cb (total_items_of pages) pages (Map.empty, 0)) = Inr (tr', k')"
    by simp
  from translate_pages_fractions [OF this assms(2)] show ?thesis by simp
qed

end